theory Spec2Isabelle
  imports Main "HOL-Library.Word"
begin

unbundle bit_operations_syntax

section \<open>Data model\<close>

text \<open>
  The program is \<^verbatim>\<open>src/main.py\<close>, a Guild Wars 2 build manager. Its codec consists of
  two functions, \<^verbatim>\<open>decode_build_link\<close> (lines 50-111) and \<^verbatim>\<open>encode_build_link\<close>
  (lines 114-158), both built on Python's \<^verbatim>\<open>base64\<close> module.

  Python \<^verbatim>\<open>bytes\<close> are lists of 8-bit words. A Python \<^verbatim>\<open>str\<close> is a \<open>string\<close>; the
  characters of code 128 to 255 stand for every non-ASCII code point (the program treats
  all of them alike: they make \<^verbatim>\<open>base64.b64decode\<close> raise \<^verbatim>\<open>ValueError\<close>).
  Python integers are \<open>int\<close>. Console output (\<^verbatim>\<open>print\<close>) is not modelled, except that
  the branch on which a function gives up is kept as the error value.
\<close>

type_synonym byte = "8 word"

text \<open>The exceptions \<^verbatim>\<open>base64.b64decode\<close> can raise on a \<^verbatim>\<open>str\<close> argument.\<close>

datatype py_exn = BinasciiError | ValueError

text \<open>
  The ways \<^verbatim>\<open>decode_build_link\<close> fails. The first four are its four \<^verbatim>\<open>return None\<close>
  branches, in source order: line 62 (envelope markers missing), line 70
  (\<^verbatim>\<open>binascii.Error\<close> caught), line 79 (empty payload) and line 111 (\<^verbatim>\<open>IndexError\<close>
  caught). The fifth is the \<^verbatim>\<open>ValueError\<close> of \<^verbatim>\<open>b64decode\<close>, which the \<^verbatim>\<open>except\<close> clause
  of line 68 does not catch, so it leaves the function as an exception.
\<close>

datatype error = BadEnvelope | BadEncoding | EmptyPayload | TooShort | UncaughtValueError

text \<open>The dictionary returned at lines 101-108.\<close>

record decoded_link =
  link_type :: string
  version :: int
  profession_id_simplified :: int
  raw_bytes_hex :: string
  note_text :: string

text \<open>
  The dictionary that \<^verbatim>\<open>create_new_build_cli\<close> (lines 222-379) assembles and hands to
  \<^verbatim>\<open>encode_build_link\<close>: a profession, a list of specializations with their chosen traits,
  five skill names; the equipment dictionary is always empty (line 366).
\<close>

record named_id =
  entry_name :: string
  entry_id :: int

record specialization =
  spec_name :: string
  spec_id :: int
  traits :: "named_id list"

record skill_names =
  heal :: string
  utility1 :: string
  utility2 :: string
  utility3 :: string
  elite :: string

record build_data =
  profession :: named_id
  specializations :: "specialization list"
  skills :: skill_names

section \<open>Python library functions\<close>

subsection \<open>Strings\<close>

definition startswith :: "string \<Rightarrow> string \<Rightarrow> bool" where
  "startswith s p = (take (length p) s = p)"

definition endswith :: "string \<Rightarrow> string \<Rightarrow> bool" where
  "endswith s p = (length p \<le> length s \<and> drop (length s - length p) s = p)"

text \<open>The slice \<^verbatim>\<open>s[2:-1]\<close>.\<close>

definition slice_2_m1 :: "string \<Rightarrow> string" where
  "slice_2_m1 s = drop 2 (butlast s)"

definition hex_digit :: "nat \<Rightarrow> char" where
  "hex_digit n = (if n < 10 then char_of (48 + n) else char_of (87 + n))"

fun hex_digits :: "nat \<Rightarrow> string" where
  "hex_digits n = (if n < 16 then [hex_digit n] else hex_digits (n div 16) @ [hex_digit (n mod 16)])"

declare hex_digits.simps [simp del]

text \<open>\<^verbatim>\<open>hex(n)\<close> for a byte value \<open>n\<close> (never negative here).\<close>

definition hex :: "byte \<Rightarrow> string" where
  "hex b = ''0x'' @ hex_digits (unat b)"

text \<open>\<^verbatim>\<open>bytes.hex()\<close>: two lower-case digits per byte.\<close>

definition bytes_hex :: "byte list \<Rightarrow> string" where
  "bytes_hex bs = concat (map (\<lambda>b. [hex_digit (unat b div 16), hex_digit (unat b mod 16)]) bs)"

subsection \<open>Base64\<close>

text \<open>
  The standard alphabet: value \<open>v < 64\<close> to character (\<^verbatim>\<open>A-Z\<close>, \<^verbatim>\<open>a-z\<close>, \<^verbatim>\<open>0-9\<close>, \<^verbatim>\<open>+\<close>,
  \<^verbatim>\<open>/\<close>), and back; a character outside the alphabet has no value.
\<close>

definition table_b2a_base64 :: "byte \<Rightarrow> char" where
  "table_b2a_base64 v =
     (let n = unat v in
      if n < 26 then char_of (65 + n)
      else if n < 52 then char_of (71 + n)
      else if n < 62 then char_of (n - 4)
      else if n = 62 then CHR ''+'' else CHR ''/'')"

definition table_a2b_base64 :: "char \<Rightarrow> byte option" where
  "table_a2b_base64 c =
     (let n = (of_char c :: nat) in
      if 65 \<le> n \<and> n \<le> 90 then Some (of_nat (n - 65))
      else if 97 \<le> n \<and> n \<le> 122 then Some (of_nat (n - 71))
      else if 48 \<le> n \<and> n \<le> 57 then Some (of_nat (n + 4))
      else if n = 43 then Some 62
      else if n = 47 then Some 63
      else None)"

text \<open>
  \<^verbatim>\<open>base64.b64encode\<close>: three bytes give four characters; one or two trailing bytes are
  padded with \<^verbatim>\<open>=\<close>.
\<close>

fun b64encode :: "byte list \<Rightarrow> string" where
  "b64encode [] = []"
| "b64encode [a] =
     [table_b2a_base64 (drop_bit 2 a),
      table_b2a_base64 (push_bit 4 (a AND 3)),
      CHR ''='', CHR ''='']"
| "b64encode [a, b] =
     [table_b2a_base64 (drop_bit 2 a),
      table_b2a_base64 (push_bit 4 (a AND 3) OR drop_bit 4 b),
      table_b2a_base64 (push_bit 2 (b AND 15)),
      CHR ''='']"
| "b64encode (a # b # c # rest) =
     [table_b2a_base64 (drop_bit 2 a),
      table_b2a_base64 (push_bit 4 (a AND 3) OR drop_bit 4 b),
      table_b2a_base64 (push_bit 2 (b AND 15) OR drop_bit 6 c),
      table_b2a_base64 (c AND 63)] @ b64encode rest"

definition emit :: "byte \<Rightarrow> byte list option \<Rightarrow> byte list option" where
  "emit b r = map_option ((#) b) r"

text \<open>
  \<^verbatim>\<open>binascii.a2b_base64\<close> in its default, non-strict mode, which is what
  \<^verbatim>\<open>base64.b64decode(s)\<close> calls. The loop keeps the position in the current group of four
  (\<open>quad_pos\<close>), the bits left over from the previous character (\<open>leftchar\<close>) and the number
  of padding characters seen since the last data character (\<open>pads\<close>). A character outside
  the alphabet is skipped. A \<^verbatim>\<open>=\<close> that completes the group ends the decoding, whatever
  follows; any other \<^verbatim>\<open>=\<close> is skipped. Input that ends inside a group raises
  \<^verbatim>\<open>binascii.Error\<close>, here \<open>None\<close>.
\<close>

fun a2b_loop :: "nat \<Rightarrow> byte \<Rightarrow> nat \<Rightarrow> string \<Rightarrow> byte list option" where
  "a2b_loop quad_pos leftchar pads [] = (if quad_pos \<noteq> 0 then None else Some [])"
| "a2b_loop quad_pos leftchar pads (c # cs) =
     (if c = CHR ''='' then
        (if 2 \<le> quad_pos \<and> 4 \<le> quad_pos + (pads + 1) then Some []
         else a2b_loop quad_pos leftchar (if 2 \<le> quad_pos then pads + 1 else pads) cs)
      else
        (case table_a2b_base64 c of
           None \<Rightarrow> a2b_loop quad_pos leftchar pads cs
         | Some this_ch \<Rightarrow>
            (if quad_pos = 0 then a2b_loop 1 this_ch 0 cs
             else if quad_pos = 1 then
               emit (push_bit 2 leftchar OR drop_bit 4 this_ch) (a2b_loop 2 (this_ch AND 15) 0 cs)
             else if quad_pos = 2 then
               emit (push_bit 4 leftchar OR drop_bit 2 this_ch) (a2b_loop 3 (this_ch AND 3) 0 cs)
             else
               emit (push_bit 6 leftchar OR this_ch) (a2b_loop 0 0 0 cs))))"

definition a2b_base64 :: "string \<Rightarrow> byte list option" where
  "a2b_base64 s = a2b_loop 0 0 0 s"

text \<open>
  \<^verbatim>\<open>base64.b64decode(s)\<close> for a \<^verbatim>\<open>str\<close>: the string is first encoded as ASCII, which
  raises \<^verbatim>\<open>ValueError\<close> when a character is not ASCII.
\<close>

definition is_ascii :: "string \<Rightarrow> bool" where
  "is_ascii s = (\<forall>c \<in> set s. (of_char c :: nat) < 128)"

definition b64decode :: "string \<Rightarrow> py_exn + byte list" where
  "b64decode s =
     (if \<not> is_ascii s then Inl ValueError
      else case a2b_base64 s of None \<Rightarrow> Inl BinasciiError | Some bs \<Rightarrow> Inr bs)"

section \<open>The codec of \<^verbatim>\<open>src/main.py\<close>\<close>

text \<open>
  Lines 59-70 of \<^verbatim>\<open>decode_build_link\<close>: check the markers, cut them off, decode the
  rest as base64.
\<close>

definition decode_envelope :: "string \<Rightarrow> error + byte list" where
  "decode_envelope link_string =
     (if \<not> startswith link_string ''[&'' \<or> \<not> endswith link_string '']'' then Inl BadEnvelope
      else case b64decode (slice_2_m1 link_string) of
             Inl BinasciiError \<Rightarrow> Inl BadEncoding
           | Inl ValueError \<Rightarrow> Inl UncaughtValueError
           | Inr decoded_bytes \<Rightarrow> Inr decoded_bytes)"

definition decode_note :: string where
  "decode_note = ''Decoding is complex and requires full GW2 build code spec.''"

text \<open>
  Indexing \<^verbatim>\<open>decoded_bytes[i]\<close> with a literal index \<open>i \<ge> 0\<close>: \<open>None\<close> stands for the
  \<^verbatim>\<open>IndexError\<close> raised when the index is out of range.
\<close>

definition getitem :: "byte list \<Rightarrow> nat \<Rightarrow> byte option" where
  "getitem bs i = (if i < length bs then Some (bs ! i) else None)"

text \<open>
  Lines 77-111 of \<^verbatim>\<open>decode_build_link\<close>: an empty payload is refused (line 79); then
  bytes 0, 1 and 2 are read in turn, and the first missing one raises the \<^verbatim>\<open>IndexError\<close>
  caught at line 109.
\<close>

definition decode_bytes :: "byte list \<Rightarrow> error + decoded_link" where
  "decode_bytes decoded_bytes =
     (if decoded_bytes = [] then Inl EmptyPayload
      else case getitem decoded_bytes 0 of
        None \<Rightarrow> Inl TooShort
      | Some link_type_byte \<Rightarrow>
         (case getitem decoded_bytes 1 of
            None \<Rightarrow> Inl TooShort
          | Some version_byte \<Rightarrow>
             (case getitem decoded_bytes 2 of
                None \<Rightarrow> Inl TooShort
              | Some profession_id \<Rightarrow>
                  Inr \<lparr>link_type = hex link_type_byte,
                       version = uint version_byte,
                       profession_id_simplified = uint profession_id,
                       raw_bytes_hex = bytes_hex decoded_bytes,
                       note_text = decode_note\<rparr>)))"

definition decode_build_link :: "string \<Rightarrow> error + decoded_link" where
  "decode_build_link link_string =
     (case decode_envelope link_string of
        Inl e \<Rightarrow> Inl e
      | Inr decoded_bytes \<Rightarrow> decode_bytes decoded_bytes)"

text \<open>Line 156: the fixed payload.\<close>

definition dummy_binary_data :: "byte list" where
  "dummy_binary_data = [0x0A, 0x01, 0x02, 0x01, 0x02, 0x03, 0x04, 0x05, 0x06, 0x07, 0x08, 0x09,
                        0x0A, 0x0B, 0x0C]"

text \<open>
  Lines 157-158, as a function of the bytes they wrap: base64 text between \<^verbatim>\<open>[\<close> and
  \<^verbatim>\<open>]\<close>.
\<close>

definition encode_envelope :: "byte list \<Rightarrow> string" where
  "encode_envelope binary_data = ''['' @ b64encode binary_data @ '']''"

text \<open>\<^verbatim>\<open>encode_build_link\<close> never reads its argument.\<close>

definition encode_build_link :: "'a \<Rightarrow> string" where
  "encode_build_link build_data = encode_envelope dummy_binary_data"

text \<open>
  Two builds as \<^verbatim>\<open>create_new_build_cli\<close> would assemble them: a Guardian and a Warrior,
  each with one specialization and one trait chosen.
\<close>

definition example_build_a :: build_data where
  "example_build_a =
     \<lparr>profession = \<lparr>entry_name = ''Guardian'', entry_id = 1\<rparr>,
      specializations =
        [\<lparr>spec_name = ''Zeal'', spec_id = 42,
          traits = [\<lparr>entry_name = ''Fiery Wrath'', entry_id = 563\<rparr>]\<rparr>],
      skills = \<lparr>heal = ''Shelter'', utility1 = '''', utility2 = '''', utility3 = '''',
                elite = ''Renewed Focus''\<rparr>\<rparr>"

definition example_build_b :: build_data where
  "example_build_b =
     \<lparr>profession = \<lparr>entry_name = ''Warrior'', entry_id = 2\<rparr>,
      specializations =
        [\<lparr>spec_name = ''Strength'', spec_id = 4,
          traits = [\<lparr>entry_name = ''Peak Performance'', entry_id = 1444\<rparr>]\<rparr>],
      skills = \<lparr>heal = ''Mending'', utility1 = '''', utility2 = '''', utility3 = '''',
                elite = ''Signet of Rage''\<rparr>\<rparr>"

text \<open>The characters that carry data in base64 text: those of the alphabet.\<close>

definition in_alphabet :: "char \<Rightarrow> bool" where
  "in_alphabet c = (table_a2b_base64 c \<noteq> None)"

text \<open>
  What the specification (section 4.1) calls valid base64, "standard alphabet with
  padding": groups of four alphabet characters, where the last group may end in one or
  two \<^verbatim>\<open>=\<close>. This is the specification's notion, written down to compare it with what
  \<^verbatim>\<open>b64decode\<close> accepts; the program has no such check.
\<close>

fun valid_base64 :: "string \<Rightarrow> bool" where
  "valid_base64 [] = True"
| "valid_base64 [c1, c2, c3, c4] =
     (in_alphabet c1 \<and> in_alphabet c2
      \<and> (in_alphabet c3 \<and> (in_alphabet c4 \<or> c4 = CHR ''='')
         \<or> c3 = CHR ''='' \<and> c4 = CHR ''=''))"
| "valid_base64 (c1 # c2 # c3 # c4 # rest) =
     (in_alphabet c1 \<and> in_alphabet c2 \<and> in_alphabet c3 \<and> in_alphabet c4 \<and> valid_base64 rest)"
| "valid_base64 _ = False"

section \<open>Trait packing\<close>

text \<open>
  Modelled from the spec: the source has no function that packs or unpacks trait choices
  (\<^verbatim>\<open>decode_build_link\<close> reads bytes 0 to 2 only, \<^verbatim>\<open>encode_build_link\<close> writes a fixed
  payload). Section 4.2 of the specification gives both directions: the three tier
  choices of a specialization are packed into one byte as
  \<^verbatim>\<open>tier0 | (tier1 << 2) | (tier2 << 4)\<close>.
\<close>

definition pack_traits :: "byte \<Rightarrow> byte \<Rightarrow> byte \<Rightarrow> byte" where
  "pack_traits tier0 tier1 tier2 = tier0 OR push_bit 2 tier1 OR push_bit 4 tier2"

text \<open>
  Modelled from the spec: tier \<open>k\<close> of a packed byte is
  \<^verbatim>\<open>(byte >> (2 * k)) & 0b11\<close> (section 4.2, decode step 3); the source has no such
  function.
\<close>

definition unpack_tier :: "byte \<Rightarrow> nat \<Rightarrow> byte" where
  "unpack_tier packed tier = drop_bit (2 * tier) packed AND 3"

section \<open>Properties\<close>

subsection \<open>Failure branches of the decoder\<close>

lemma decode_bytes_alt:
  "decode_bytes bs =
     (if bs = [] then Inl EmptyPayload
      else if length bs < 3 then Inl TooShort
      else Inr \<lparr>link_type = hex (bs ! 0), version = uint (bs ! 1),
                profession_id_simplified = uint (bs ! 2),
                raw_bytes_hex = bytes_hex bs, note_text = decode_note\<rparr>)"
  by (simp add: decode_bytes_def getitem_def)

lemma decode_bytes_Inl_iff:
  "decode_bytes bs = Inl e \<longleftrightarrow>
     (bs = [] \<and> e = EmptyPayload) \<or> (bs \<noteq> [] \<and> length bs < 3 \<and> e = TooShort)"
  by (auto simp: decode_bytes_alt)

lemma decode_envelope_BadEnvelope_iff:
  "decode_envelope text = Inl BadEnvelope \<longleftrightarrow>
     \<not> (startswith text ''[&'' \<and> endswith text '']'')"
  by (auto simp: decode_envelope_def split: sum.splits py_exn.splits)

lemma decode_build_link_BadEnvelope_iff:
  "decode_build_link text = Inl BadEnvelope \<longleftrightarrow> decode_envelope text = Inl BadEnvelope"
  by (auto simp: decode_build_link_def decode_bytes_Inl_iff split: sum.splits)

text \<open>
  C3. For every input string, decoding takes the bad-envelope branch (line 62, no decoded
  value) exactly when the string does not both start with \<^verbatim>\<open>[&\<close> and end with \<^verbatim>\<open>]\<close>.
  This holds for the envelope part alone and for \<^verbatim>\<open>decode_build_link\<close> as a whole; the
  string \<^verbatim>\<open>DQYAAAA\<close> is such an input.
\<close>

theorem bad_envelope_iff:
  "(decode_envelope text = Inl BadEnvelope) =
     (\<not> (startswith text ''[&'' \<and> endswith text '']''))
   \<and> (decode_build_link text = Inl BadEnvelope) =
     (\<not> (startswith text ''[&'' \<and> endswith text '']''))
   \<and> decode_envelope ''DQYAAAA'' = Inl BadEnvelope
   \<and> decode_build_link ''DQYAAAA'' = Inl BadEnvelope"
proof -
  have "decode_envelope ''DQYAAAA'' = Inl BadEnvelope"
    by (simp add: decode_envelope_def startswith_def)
  then show ?thesis
    by (simp add: decode_envelope_BadEnvelope_iff decode_build_link_BadEnvelope_iff)
qed

theorem bad_envelope_iff_witness:
  "decode_build_link ''[&]'' \<noteq> Inl BadEnvelope \<and> decode_build_link '']&['' = Inl BadEnvelope"
  using bad_envelope_iff [of "''[&]''"] bad_envelope_iff [of "'']&[''"]
  by (simp add: startswith_def endswith_def)

subsection \<open>The encoder\<close>

text \<open>
  C9. \<^verbatim>\<open>encode_build_link\<close> is constant: any two arguments give the same string, which
  is \<^verbatim>\<open>[CgECAQIDBAUGBwgJCgsM]\<close>, the base64 text of the fixed 15-byte payload between
  \<^verbatim>\<open>[\<close> and \<^verbatim>\<open>]\<close>, with no \<^verbatim>\<open>&\<close> in it.
\<close>

theorem encode_build_link_constant:
  "encode_build_link build_data1 = encode_build_link build_data2
   \<and> encode_build_link build_data1 = ''[CgECAQIDBAUGBwgJCgsM]''
   \<and> encode_build_link build_data1 = ''['' @ b64encode dummy_binary_data @ '']''
   \<and> length dummy_binary_data = 15
   \<and> CHR ''&'' \<notin> set (encode_build_link build_data1)"
proof -
  have e: "encode_envelope dummy_binary_data = ''[CgECAQIDBAUGBwgJCgsM]''"
    by code_simp
  have l: "length dummy_binary_data = 15"
    by (simp add: dummy_binary_data_def)
  have w: "encode_envelope dummy_binary_data = ''['' @ b64encode dummy_binary_data @ '']''"
    by (simp only: encode_envelope_def)
  have a: "CHR ''&'' \<notin> set ''[CgECAQIDBAUGBwgJCgsM]''"
    by simp
  show ?thesis
    unfolding encode_build_link_def using e l w a by metis
qed

subsection \<open>What the decoder reads from the payload\<close>

lemma decode_bytes_Inr_iff:
  "(\<exists>r. decode_bytes bs = Inr r) \<longleftrightarrow> 3 \<le> length bs"
  by (auto simp: decode_bytes_alt)

lemma decode_bytes_Inr_fields:
  "decode_bytes bs = Inr r \<Longrightarrow>
     3 \<le> length bs \<and> link_type r = hex (bs ! 0) \<and> version r = uint (bs ! 1)
     \<and> profession_id_simplified r = uint (bs ! 2) \<and> raw_bytes_hex r = bytes_hex bs"
  by (auto simp: decode_bytes_alt split: if_splits)

text \<open>
  C5, as stated, fails: a payload of 27 bytes whose first byte is the build-link tag
  \<^verbatim>\<open>0x0A\<close> of the source's comments is decoded, not refused as truncated; so is the
  link text that carries it.
\<close>

theorem truncated_counterexample:
  "length (0x0A # replicate 26 (0 :: byte)) = 27
   \<and> decode_bytes (0x0A # replicate 26 0) =
       Inr \<lparr>link_type = ''0xa'', version = 0, profession_id_simplified = 0,
            raw_bytes_hex = ''0a'' @ concat (replicate 26 ''00''), note_text = decode_note\<rparr>
   \<and> decode_build_link ''[&CgAAAAAAAAAAAAAAAAAAAAAAAAAAAAAAAAAA]'' =
       Inr \<lparr>link_type = ''0xa'', version = 0, profession_id_simplified = 0,
            raw_bytes_hex = ''0a'' @ concat (replicate 26 ''00''), note_text = decode_note\<rparr>"
  by code_simp

text \<open>
  C5, amended. The decoder needs three bytes, whatever the first byte says: a payload
  fails as too short (the \<^verbatim>\<open>IndexError\<close> branch, which carries no byte counts) exactly
  when it has one or two bytes, and every payload of three bytes or more is decoded.
\<close>

theorem too_short_iff:
  "(decode_bytes bs = Inl TooShort) = (length bs = 1 \<or> length bs = 2)
   \<and> (3 \<le> length bs \<longrightarrow> (\<exists>r. decode_bytes bs = Inr r))"
proof -
  have e: "(bs = []) = (length bs = 0)" by simp
  have "(length bs \<noteq> 0 \<and> length bs < 3) = (length bs = 1 \<or> length bs = 2)" by arith
  then show ?thesis unfolding decode_bytes_alt e by auto
qed

theorem too_short_iff_witness:
  "decode_bytes [0x0A, 1] = Inl TooShort \<and> (\<exists>r. decode_bytes (0x0A # replicate 26 0) = Inr r)"
  using too_short_iff [of "[0x0A, 1]"] too_short_iff [of "0x0A # replicate 26 0"]
  by simp

text \<open>
  C6, as stated, fails: the link \<^verbatim>\<open>[&/w==]\<close> is refused because its payload is a single
  byte, on the too-short branch, and the three-byte payload \<^verbatim>\<open>ff 00 00\<close> with the same
  first byte, sent as \<^verbatim>\<open>[&/wAA]\<close>, is decoded.
\<close>

theorem unknown_tag_counterexample:
  "decode_build_link ''[&/w==]'' = Inl TooShort
   \<and> decode_build_link ''[&/wAA]'' =
       Inr \<lparr>link_type = ''0xff'', version = 0, profession_id_simplified = 0,
            raw_bytes_hex = ''ff0000'', note_text = decode_note\<rparr>"
  by code_simp

text \<open>
  C6, amended. The decoder does not dispatch on the first byte: every payload of at
  least three bytes is decoded, and the first byte is only reported, in hexadecimal, as
  \<open>link_type\<close>.
\<close>

theorem no_tag_dispatch:
  "3 \<le> length bs \<Longrightarrow> \<exists>r. decode_bytes bs = Inr r \<and> link_type r = hex (bs ! 0)"
  by (auto simp: decode_bytes_alt)

theorem no_tag_dispatch_witness:
  "\<exists>r. decode_bytes [0xFF, 0, 0] = Inr r \<and> link_type r = ''0xff''"
proof -
  have h: "hex (0xFF :: byte) = ''0xff''" by code_simp
  from no_tag_dispatch [of "[0xFF, 0, 0]"] h show ?thesis by simp
qed

text \<open>
  C7, as stated, fails: for the payload \<^verbatim>\<open>0a 01 02\<close> the profession id returned is 2,
  while the byte at offset 1 is 1.
\<close>

theorem profession_id_counterexample:
  "map_sum id profession_id_simplified (decode_bytes [0x0A, 1, 2]) = Inr 2
   \<and> uint ([0x0A, 1, 2 :: byte] ! 1) = 1"
  by (simp add: decode_bytes_alt)

text \<open>
  C7, amended. For every payload the decoder accepts, the profession id of the result is
  the byte at offset 2, taken as it is; the byte at offset 1 is returned as the version.
\<close>

theorem profession_id_is_byte_2:
  "decode_bytes bs = Inr r \<Longrightarrow>
     3 \<le> length bs \<and> profession_id_simplified r = uint (bs ! 2) \<and> version r = uint (bs ! 1)"
  by (simp add: decode_bytes_Inr_fields)

theorem profession_id_is_byte_2_witness:
  "decode_bytes [0x0A, 1, 2] =
     Inr \<lparr>link_type = ''0xa'', version = 1, profession_id_simplified = 2,
          raw_bytes_hex = ''0a0102'', note_text = decode_note\<rparr>
   \<and> profession_id_simplified
       \<lparr>link_type = ''0xa'', version = 1, profession_id_simplified = 2,
        raw_bytes_hex = ''0a0102'', note_text = decode_note\<rparr> = uint ([0x0A, 1, 2 :: byte] ! 2)"
proof -
  have d: "decode_bytes [0x0A, 1, 2] =
     Inr \<lparr>link_type = ''0xa'', version = 1, profession_id_simplified = 2,
          raw_bytes_hex = ''0a0102'', note_text = decode_note\<rparr>"
    by code_simp
  from profession_id_is_byte_2 [OF d] d show ?thesis by simp
qed

subsection \<open>The envelope read by the decoder\<close>

lemma decode_envelope_Inr_iff:
  "decode_envelope text = Inr bs \<longleftrightarrow>
     startswith text ''[&'' \<and> endswith text '']'' \<and> b64decode (slice_2_m1 text) = Inr bs"
  by (auto simp: decode_envelope_def split: sum.splits py_exn.splits)

lemma slice_of_envelope: "slice_2_m1 (''[&'' @ p @ '']'') = p"
  by (simp add: slice_2_m1_def butlast_append)

lemma envelope_markers:
  "startswith (''[&'' @ p @ '']'') ''[&'' \<and> endswith (''[&'' @ p @ '']'') '']''"
  by (simp add: startswith_def endswith_def)

subsection \<open>The envelope written by the encoder\<close>

lemma table_b2a_base64_not_amp: "table_b2a_base64 v \<noteq> CHR ''&''"
proof
  assume "table_b2a_base64 v = CHR ''&''"
  then have "(of_char (table_b2a_base64 v) :: nat) = 38" by simp
  then show False
    by (auto simp: table_b2a_base64_def Let_def split: if_splits)
qed

lemma b64encode_hd: "b64encode b = c # cs \<Longrightarrow> c \<noteq> CHR ''&''"
  by (cases b rule: b64encode.cases) (auto simp: table_b2a_base64_not_amp)

text \<open>
  C1 does not hold of the code. Lines 157-158 wrap the base64 text in \<^verbatim>\<open>[\<close> and \<^verbatim>\<open>]\<close>,
  leaving out the \<^verbatim>\<open>&\<close> that the comment on line 158, the docstring of line 121 and the
  decoder (line 59) all expect. So for every byte sequence, the empty one too, the
  decoder refuses what the encoder wrote as a bad envelope.
\<close>

theorem envelope_roundtrip_broken:
  "decode_envelope (encode_envelope b) = Inl BadEnvelope
   \<and> decode_build_link (encode_build_link build_data) = Inl BadEnvelope"
proof -
  have "\<not> startswith (encode_envelope b) ''[&''" for b
    by (cases "b64encode b") (auto simp: startswith_def encode_envelope_def dest: b64encode_hd)
  then have "decode_envelope (encode_envelope b) = Inl BadEnvelope" for b
    by (simp add: decode_envelope_def)
  then show ?thesis
    by (simp add: decode_build_link_def encode_build_link_def)
qed

theorem envelope_roundtrip_broken_witness:
  "encode_envelope dummy_binary_data = ''[CgECAQIDBAUGBwgJCgsM]''
   \<and> decode_envelope ''[CgECAQIDBAUGBwgJCgsM]'' = Inl BadEnvelope
   \<and> decode_envelope (encode_envelope []) = Inl BadEnvelope
   \<and> decode_build_link (encode_build_link example_build_a) = Inl BadEnvelope"
proof -
  have e: "encode_envelope dummy_binary_data = ''[CgECAQIDBAUGBwgJCgsM]''"
    by code_simp
  from envelope_roundtrip_broken [of dummy_binary_data example_build_a]
    envelope_roundtrip_broken [of "[]" example_build_a] e
  show ?thesis by simp
qed

subsection \<open>Encoding and then decoding a build\<close>

text \<open>
  C2, as stated, fails: two different builds have the same encoding, so no decoder can
  give each of them back; and decoding that text gives no build at all.
\<close>

theorem build_roundtrip_counterexample:
  "example_build_a \<noteq> example_build_b
   \<and> encode_build_link example_build_a = encode_build_link example_build_b
   \<and> decode_build_link (encode_build_link example_build_a) = Inl BadEnvelope"
proof -
  have n: "example_build_a \<noteq> example_build_b"
    by (simp add: example_build_a_def example_build_b_def)
  have d: "decode_build_link (encode_envelope dummy_binary_data) = Inl BadEnvelope"
    by code_simp
  from n d show ?thesis by (simp add: encode_build_link_def)
qed

text \<open>
  C2, amended. What decoding the output of \<^verbatim>\<open>encode_build_link\<close> gives does not depend
  on the build: the encoder writes no field of its argument but always the fixed 15-byte
  payload, and from that payload the decoder reads link type \<^verbatim>\<open>0xa\<close>, version 1 and
  profession id 2.
\<close>

theorem decode_encode_independent_of_build:
  "decode_build_link (encode_build_link t1) = decode_build_link (encode_build_link t2)
   \<and> encode_build_link t1 = ''['' @ b64encode dummy_binary_data @ '']''
   \<and> decode_bytes dummy_binary_data =
       Inr \<lparr>link_type = ''0xa'', version = 1, profession_id_simplified = 2,
            raw_bytes_hex = ''0a01020102030405060708090a0b0c'', note_text = decode_note\<rparr>"
proof -
  have d: "decode_bytes dummy_binary_data =
       Inr \<lparr>link_type = ''0xa'', version = 1, profession_id_simplified = 2,
            raw_bytes_hex = ''0a01020102030405060708090a0b0c'', note_text = decode_note\<rparr>"
    by code_simp
  then show ?thesis by (simp add: encode_build_link_def encode_envelope_def)
qed

theorem decode_encode_independent_of_build_witness:
  "decode_build_link (encode_build_link example_build_a) =
     decode_build_link (encode_build_link example_build_b)"
  by (rule conjunct1 [OF decode_encode_independent_of_build])

subsection \<open>Trait packing\<close>

lemma le3_cases: "(t :: byte) \<le> 3 \<Longrightarrow> t = 0 \<or> t = 1 \<or> t = 2 \<or> t = 3"
proof -
  assume "t \<le> 3"
  then have "unat t \<le> 3" by (simp add: word_le_nat_alt)
  then have c: "unat t = 0 \<or> unat t = 1 \<or> unat t = 2 \<or> unat t = 3" by arith
  have t: "t = of_nat (unat t)" by simp
  have "t = 0" if "unat t = 0" using that by (simp add: unat_eq_0)
  moreover have "t = 1" if "unat t = 1" by (subst t, simp only: that of_nat_1)
  moreover have "t = 2" if "unat t = 2" by (subst t, simp only: that of_nat_numeral)
  moreover have "t = 3" if "unat t = 3" by (subst t, simp only: that of_nat_numeral)
  ultimately show ?thesis using c by fastforce
qed

lemma unpack_pack:
  assumes "t0 \<le> 3" "t1 \<le> 3" "t2 \<le> 3"
  shows "unpack_tier (pack_traits t0 t1 t2) 0 = t0"
    and "unpack_tier (pack_traits t0 t1 t2) 1 = t1"
    and "unpack_tier (pack_traits t0 t1 t2) 2 = t2"
  using le3_cases [OF assms(1)] le3_cases [OF assms(2)] le3_cases [OF assms(3)]
  by (auto simp: unpack_tier_def pack_traits_def)

lemma pack_unpack:
  "pack_traits (unpack_tier b 0) (unpack_tier b 1) (unpack_tier b 2) = b AND 0x3F"
proof -
  have m3: "(3 :: byte) = mask 2" by (simp add: mask_eq_exp_minus_1)
  have m63: "(0x3F :: byte) = mask 6" by (simp add: mask_eq_exp_minus_1)
  show ?thesis
    unfolding pack_traits_def unpack_tier_def m3 m63
  proof (rule bit_word_eqI)
    fix i
    assume "i < LENGTH(8)"
    then have "i = 0 \<or> i = 1 \<or> i = 2 \<or> i = 3 \<or> i = 4 \<or> i = 5 \<or> i = 6 \<or> i = 7"
      by simp arith
    then show "bit (drop_bit (2 * 0) b AND mask 2 OR push_bit 2 (drop_bit (2 * 1) b AND mask 2)
                 OR push_bit 4 (drop_bit (2 * 2) b AND mask 2)) i = bit (b AND mask 6) i"
      by (elim disjE) (simp_all add: bit_simps)
  qed
qed

text \<open>
  C8. Packing three tier choices gives \<open>t0 OR (t1 << 2) OR (t2 << 4)\<close> and unpacking reads
  tier \<open>k\<close> as \<open>(byte >> (2 * k)) AND 3\<close>. The two are inverse on the 2-bit fields:
  unpacking a packed byte gives back each choice that lies in 0..3, an unpacked value
  always lies in 0..3, and packing the three unpacked tiers gives back the low six bits
  of the byte. Packing 1, 2, 3 gives \<^verbatim>\<open>0x39\<close>, and unpacking \<^verbatim>\<open>0x39\<close> gives 1, 2, 3.
\<close>

theorem trait_packing_inverse:
  "pack_traits t0 t1 t2 = t0 OR push_bit 2 t1 OR push_bit 4 t2
   \<and> unpack_tier b k = drop_bit (2 * k) b AND 3
   \<and> (t0 \<le> 3 \<and> t1 \<le> 3 \<and> t2 \<le> 3 \<longrightarrow>
        unpack_tier (pack_traits t0 t1 t2) 0 = t0
        \<and> unpack_tier (pack_traits t0 t1 t2) 1 = t1
        \<and> unpack_tier (pack_traits t0 t1 t2) 2 = t2)
   \<and> unpack_tier b k \<le> 3
   \<and> pack_traits (unpack_tier b 0) (unpack_tier b 1) (unpack_tier b 2) = b AND 0x3F
   \<and> pack_traits 1 2 3 = 0x39
   \<and> map (unpack_tier 0x39) [0, 1, 2] = [1, 2, 3]"
proof -
  have r: "unpack_tier b k \<le> 3"
    unfolding unpack_tier_def by (rule word_and_le1)
  have e1: "pack_traits 1 2 3 = 0x39"
    by (simp add: pack_traits_def)
  have e2: "map (unpack_tier 0x39) [0, 1, 2] = [1, 2, 3]"
    by (simp add: unpack_tier_def)
  show ?thesis
    using r e1 e2 pack_unpack [of b] unpack_pack [of t0 t1 t2]
    by (simp add: pack_traits_def unpack_tier_def)
qed

theorem trait_packing_inverse_witness:
  "(1 :: byte) \<le> 3 \<and> (2 :: byte) \<le> 3 \<and> (3 :: byte) \<le> 3
   \<and> unpack_tier (pack_traits 1 2 3) 0 = 1
   \<and> unpack_tier (pack_traits 1 2 3) 1 = 2
   \<and> unpack_tier (pack_traits 1 2 3) 2 = 3"
  using trait_packing_inverse [of 1 2 3 0 0] by simp

subsection \<open>What the base64 decoder refuses\<close>

lemma pad_not_in_alphabet: "table_a2b_base64 CHR ''='' = None"
  by (simp add: table_a2b_base64_def)

lemma emit_None_iff: "emit b r = None \<longleftrightarrow> r = None"
  by (simp add: emit_def)






lemma decode_envelope_payload:
  "decode_envelope (''[&'' @ p @ '']'') =
     (case b64decode p of
        Inl BinasciiError \<Rightarrow> Inl BadEncoding
      | Inl ValueError \<Rightarrow> Inl UncaughtValueError
      | Inr decoded_bytes \<Rightarrow> Inr decoded_bytes)"
  using envelope_markers [of p] slice_of_envelope [of p]
  by (simp add: decode_envelope_def del: append.simps)





subsection \<open>When the decoder succeeds\<close>

lemma in_alphabet_not_pad: "in_alphabet c \<Longrightarrow> c \<noteq> CHR ''=''"
  using pad_not_in_alphabet by (auto simp: in_alphabet_def)

lemma in_alphabet_ascii: "in_alphabet c \<Longrightarrow> (of_char c :: nat) < 128"
  by (auto simp: in_alphabet_def table_a2b_base64_def Let_def split: if_splits)

lemma in_alphabet_value: "in_alphabet c \<Longrightarrow> \<exists>v. table_a2b_base64 c = Some v"
  by (auto simp: in_alphabet_def)

lemma a2b_loop_data_char:
  assumes "in_alphabet c"
  shows "(a2b_loop 0 l pd (c # cs) = None) =
           (\<forall>v. a2b_loop 1 v 0 cs = None \<or> table_a2b_base64 c \<noteq> Some v)"
    and "(a2b_loop 1 l pd (c # cs) = None) =
           (\<forall>v. a2b_loop 2 (v AND 15) 0 cs = None \<or> table_a2b_base64 c \<noteq> Some v)"
    and "(a2b_loop 2 l pd (c # cs) = None) =
           (\<forall>v. a2b_loop 3 (v AND 3) 0 cs = None \<or> table_a2b_base64 c \<noteq> Some v)"
    and "(a2b_loop 3 l pd (c # cs) = None) = (a2b_loop 0 0 0 cs = None)"
  using in_alphabet_not_pad [OF assms] in_alphabet_value [OF assms]
  by (auto simp: emit_None_iff)

lemma valid_base64_accepted: "valid_base64 p \<Longrightarrow> a2b_loop 0 l pd p \<noteq> None"
proof (induction p arbitrary: l pd rule: valid_base64.induct)
  case 1
  show ?case by simp
next
  case (2 c1 c2 c3 c4)
  then have a: "in_alphabet c1" "in_alphabet c2" by simp_all
  from 2 consider "in_alphabet c3" "in_alphabet c4" | "in_alphabet c3" "c4 = CHR ''=''"
    | "c3 = CHR ''=''" "c4 = CHR ''=''" by auto
  then show ?case
  proof cases
    case 1
    with a show ?thesis by (simp only: a2b_loop_data_char) (simp add: in_alphabet_value)
  next
    case 2
    with a show ?thesis by (simp only: a2b_loop_data_char) (simp add: in_alphabet_value)
  next
    case 3
    with a show ?thesis by (simp only: a2b_loop_data_char) (simp add: in_alphabet_value)
  qed
next
  case (3 c1 c2 c3 c4 v va)
  then have a: "in_alphabet c1" "in_alphabet c2" "in_alphabet c3" "in_alphabet c4"
    and r: "a2b_loop 0 0 0 (v # va) \<noteq> None" by simp_all
  from a r show ?case by (simp only: a2b_loop_data_char) (simp add: in_alphabet_value)
qed simp_all

lemma valid_base64_ascii: "valid_base64 p \<Longrightarrow> is_ascii p"
  by (induction p rule: valid_base64.induct)
     (auto simp: is_ascii_def in_alphabet_ascii)

lemma valid_base64_decodes: "valid_base64 p \<Longrightarrow> \<exists>bs. b64decode p = Inr bs"
  using valid_base64_accepted [of p 0 0] valid_base64_ascii [of p]
  by (auto simp: b64decode_def a2b_base64_def split: option.splits)

text \<open>
  C10, as stated, fails: the payloads \<^verbatim>\<open>CgEC*\<close> and \<^verbatim>\<open>Cg=EC\<close> are not valid base64, yet
  the links \<^verbatim>\<open>[&CgEC*]\<close> and \<^verbatim>\<open>[&Cg=EC]\<close> are decoded to a build.
\<close>

theorem lenient_payload_counterexample:
  "\<not> valid_base64 ''CgEC*''
   \<and> decode_build_link ''[&CgEC*]'' =
       Inr \<lparr>link_type = ''0xa'', version = 1, profession_id_simplified = 2,
            raw_bytes_hex = ''0a0102'', note_text = decode_note\<rparr>
   \<and> \<not> valid_base64 ''Cg=EC''
   \<and> decode_build_link ''[&Cg=EC]'' =
       Inr \<lparr>link_type = ''0xa'', version = 1, profession_id_simplified = 2,
            raw_bytes_hex = ''0a0102'', note_text = decode_note\<rparr>"
  by code_simp

text \<open>
  C10, amended. \<^verbatim>\<open>decode_build_link\<close> returns a decoded build exactly when the input has
  both markers, \<^verbatim>\<open>b64decode\<close> in its default, lenient mode accepts the text between them,
  and the bytes it gives are at least three. Every valid base64 payload is accepted by
  \<^verbatim>\<open>b64decode\<close>, but so are others. The link \<^verbatim>\<open>[&]\<close>, whose payload is empty, fails, and
  so does every link whose payload decodes to one or two bytes.
\<close>

theorem decode_build_link_succeeds_iff:
  "((\<exists>r. decode_build_link text = Inr r) =
      (startswith text ''[&'' \<and> endswith text '']''
       \<and> (\<exists>bs. b64decode (slice_2_m1 text) = Inr bs \<and> 3 \<le> length bs)))
   \<and> (valid_base64 p \<longrightarrow> (\<exists>bs. b64decode p = Inr bs))
   \<and> decode_build_link ''[&]'' = Inl EmptyPayload
   \<and> (\<forall>p bs. b64decode p = Inr bs \<and> (length bs = 1 \<or> length bs = 2) \<longrightarrow>
         decode_build_link (''[&'' @ p @ '']'') = Inl TooShort)"
proof -
  have a: "(\<exists>r. decode_build_link text = Inr r) =
      (startswith text ''[&'' \<and> endswith text '']''
       \<and> (\<exists>bs. b64decode (slice_2_m1 text) = Inr bs \<and> 3 \<le> length bs))"
  proof (cases "decode_envelope text")
    case (Inl e)
    then have "\<And>bs. \<not> (startswith text ''[&'' \<and> endswith text '']''
        \<and> b64decode (slice_2_m1 text) = Inr bs)"
      using decode_envelope_Inr_iff [of "text"] by simp
    then show ?thesis using Inl by (auto simp: decode_build_link_def)
  next
    case (Inr bs)
    then have "startswith text ''[&'' \<and> endswith text '']''
        \<and> b64decode (slice_2_m1 text) = Inr bs"
      by (simp add: decode_envelope_Inr_iff)
    then show ?thesis using Inr by (simp add: decode_build_link_def decode_bytes_Inr_iff)
  qed
  have b: "decode_build_link ''[&]'' = Inl EmptyPayload"
    by code_simp
  have c: "decode_build_link (''[&'' @ p @ '']'') = Inl TooShort"
    if "b64decode p = Inr bs" "length bs = 1 \<or> length bs = 2" for p bs
  proof -
    have "decode_envelope (''[&'' @ p @ '']'') = Inr bs"
      using that(1) envelope_markers [of p] slice_of_envelope [of p]
      by (simp only: decode_envelope_Inr_iff)
    moreover have "decode_bytes bs = Inl TooShort"
      using that(2) by (auto simp: decode_bytes_alt)
    ultimately show ?thesis by (simp add: decode_build_link_def)
  qed
  have d: "valid_base64 p \<longrightarrow> (\<exists>bs. b64decode p = Inr bs)"
    by (simp add: valid_base64_decodes)
  from a b c d show ?thesis by blast
qed

theorem decode_build_link_succeeds_iff_witness:
  "b64decode ''/w=='' = Inr [0xFF] \<and> decode_build_link ''[&/w==]'' = Inl TooShort
   \<and> b64decode ''CgEC'' = Inr [0x0A, 1, 2] \<and> (\<exists>r. decode_build_link ''[&CgEC]'' = Inr r)
   \<and> valid_base64 ''CgEC'' \<and> (\<exists>bs. b64decode ''CgEC'' = Inr bs)"
proof -
  have d1: "b64decode ''/w=='' = Inr [0xFF]" by code_simp
  have d2: "b64decode ''CgEC'' = Inr [0x0A, 1, 2]" by code_simp
  have v: "valid_base64 ''CgEC''" by code_simp
  have m: "startswith ''[&CgEC]'' ''[&'' \<and> endswith ''[&CgEC]'' '']''
      \<and> slice_2_m1 ''[&CgEC]'' = ''CgEC''"
    by (simp add: startswith_def endswith_def slice_2_m1_def)
  note t = decode_build_link_succeeds_iff [of "''[&CgEC]''" "''CgEC''"]
  have s: "decode_build_link (''[&'' @ ''/w=='' @ '']'') = Inl TooShort"
    using conjunct2 [OF conjunct2 [OF conjunct2 [OF t]], rule_format, of "''/w==''" "[0xFF]"] d1
    by simp
  have r: "\<exists>r. decode_build_link ''[&CgEC]'' = Inr r"
    using conjunct1 [OF t] d2 m by simp
  have e: "\<exists>bs. b64decode ''CgEC'' = Inr bs"
    using conjunct1 [OF conjunct2 [OF t]] v by simp
  from s r d1 d2 v e show ?thesis by simp
qed

subsection \<open>Base64 decoding undoes base64 encoding\<close>

text \<open>
  The base64 layer itself is sound: decoding the text that \<^verbatim>\<open>b64encode\<close> gives returns the
  bytes. So the envelope law that fails for \<^verbatim>\<open>encode_envelope\<close> holds as soon as the text
  is wrapped in the markers \<^verbatim>\<open>[&\<close> and \<^verbatim>\<open>]\<close> that the decoder expects.
\<close>

lemma six_bits_bound: "v AND mask 6 = v \<Longrightarrow> unat (v :: byte) < 64"
proof -
  assume h: "v AND mask 6 = v"
  have "v AND mask 6 < 2 ^ 6" by (rule and_mask_less_size) (simp add: word_size)
  then have "v < 64" by (simp add: h)
  then show ?thesis by (simp add: word_less_nat_alt)
qed

lemma unat_eq_numeral: "unat (v :: byte) = numeral k \<Longrightarrow> v = numeral k"
proof -
  assume "unat v = numeral k"
  then have "of_nat (unat v) = (of_nat (numeral k) :: byte)" by simp
  then show "v = numeral k" by simp
qed

lemma table_inverse:
  assumes "unat v < 64"
  shows "table_a2b_base64 (table_b2a_base64 v) = Some v"
proof -
  consider "unat v < 26" | "26 \<le> unat v \<and> unat v < 52" | "52 \<le> unat v \<and> unat v < 62"
    | "unat v = 62" | "unat v = 63"
    using assms by arith
  then show ?thesis
  proof cases
    case 1
    then show ?thesis by (simp add: table_a2b_base64_def table_b2a_base64_def Let_def)
  next
    case 2
    then show ?thesis by (simp add: table_a2b_base64_def table_b2a_base64_def Let_def)
  next
    case 3
    have c: "table_b2a_base64 v = char_of (unat v - 4)"
      using 3 by (simp add: table_b2a_base64_def Let_def)
    have "unat v - 4 < 256"
      using 3 by arith
    then have o: "(of_char (char_of (unat v - 4)) :: nat) = unat v - 4"
      by simp
    have r: "unat v - 4 + 4 = unat v"
      using 3 by arith
    have "table_a2b_base64 (char_of (unat v - 4)) = Some (of_nat (unat v - 4 + 4))"
      unfolding table_a2b_base64_def Let_def o using 3 by auto
    then have "table_a2b_base64 (char_of (unat v - 4)) = Some (of_nat (unat v))"
      by (simp only: r)
    then show ?thesis
      by (simp add: c)
  next
    case 4
    then show ?thesis
      using unat_eq_numeral [of v] by (simp add: table_a2b_base64_def table_b2a_base64_def)
  next
    case 5
    then show ?thesis
      using unat_eq_numeral [of v] by (simp add: table_a2b_base64_def table_b2a_base64_def)
  qed
qed

lemma table_b2a_base64_not_pad: "table_b2a_base64 v \<noteq> CHR ''=''"
proof
  assume "table_b2a_base64 v = CHR ''=''"
  then have "(of_char (table_b2a_base64 v) :: nat) = 61" by simp
  then show False
    by (auto simp: table_b2a_base64_def Let_def split: if_splits)
qed

lemma table_b2a_base64_ascii: "(of_char (table_b2a_base64 v) :: nat) < 128"
  by (auto simp: table_b2a_base64_def Let_def)


lemma mask_numerals: "(3 :: byte) = mask 2" "(15 :: byte) = mask 4" "(63 :: byte) = mask 6"
  by (simp_all add: mask_eq_exp_minus_1)

lemma bit_index_cases:
  "i < 8 \<Longrightarrow> i = 0 \<or> i = 1 \<or> i = 2 \<or> i = 3 \<or> i = 4 \<or> i = 5 \<or> i = 6 \<or> i = Suc 6"
  by arith

lemma sextet1: "drop_bit 2 (a :: byte) AND mask 6 = drop_bit 2 a"
proof (rule bit_word_eqI)
  fix i assume "i < LENGTH(8)"
  then have "i < 8" by simp
  from bit_index_cases [OF this]
  show "bit (drop_bit 2 a AND mask 6) i = bit (drop_bit 2 a) i"
    by (elim disjE) (auto simp: bit_simps dest: bit_imp_le_length)
qed

lemma sextet2: "(push_bit 4 (a AND mask 2) OR drop_bit 4 b) AND mask 6 = push_bit 4 (a AND mask 2) OR drop_bit 4 (b :: byte)"
proof (rule bit_word_eqI)
  fix i assume "i < LENGTH(8)"
  then have "i < 8" by simp
  from bit_index_cases [OF this]
  show "bit ((push_bit 4 (a AND mask 2) OR drop_bit 4 b) AND mask 6) i = bit (push_bit 4 (a AND mask 2) OR drop_bit 4 b) i"
    by (elim disjE) (auto simp: bit_simps dest: bit_imp_le_length)
qed

lemma sextet3: "(push_bit 2 (b AND mask 4) OR drop_bit 6 c) AND mask 6 = push_bit 2 (b AND mask 4) OR drop_bit 6 (c :: byte)"
proof (rule bit_word_eqI)
  fix i assume "i < LENGTH(8)"
  then have "i < 8" by simp
  from bit_index_cases [OF this]
  show "bit ((push_bit 2 (b AND mask 4) OR drop_bit 6 c) AND mask 6) i = bit (push_bit 2 (b AND mask 4) OR drop_bit 6 c) i"
    by (elim disjE) (auto simp: bit_simps dest: bit_imp_le_length)
qed

lemma octet1: "push_bit 2 (drop_bit 2 a) OR drop_bit 4 (push_bit 4 (a AND mask 2) OR drop_bit 4 b) = (a :: byte)"
proof (rule bit_word_eqI)
  fix i assume "i < LENGTH(8)"
  then have "i < 8" by simp
  from bit_index_cases [OF this]
  show "bit (push_bit 2 (drop_bit 2 a) OR drop_bit 4 (push_bit 4 (a AND mask 2) OR drop_bit 4 b)) i = bit a i"
    by (elim disjE) (auto simp: bit_simps dest: bit_imp_le_length)
qed

lemma octet2: "push_bit 4 ((push_bit 4 (a AND mask 2) OR drop_bit 4 b) AND mask 4) OR drop_bit 2 (push_bit 2 (b AND mask 4) OR drop_bit 6 c) = (b :: byte)"
proof (rule bit_word_eqI)
  fix i assume "i < LENGTH(8)"
  then have "i < 8" by simp
  from bit_index_cases [OF this]
  show "bit (push_bit 4 ((push_bit 4 (a AND mask 2) OR drop_bit 4 b) AND mask 4) OR drop_bit 2 (push_bit 2 (b AND mask 4) OR drop_bit 6 c)) i = bit b i"
    by (elim disjE) (auto simp: bit_simps dest: bit_imp_le_length)
qed

lemma octet3: "push_bit 6 ((push_bit 2 (b AND mask 4) OR drop_bit 6 c) AND mask 2) OR (c AND mask 6) = (c :: byte)"
proof (rule bit_word_eqI)
  fix i assume "i < LENGTH(8)"
  then have "i < 8" by simp
  from bit_index_cases [OF this]
  show "bit (push_bit 6 ((push_bit 2 (b AND mask 4) OR drop_bit 6 c) AND mask 2) OR (c AND mask 6)) i = bit c i"
    by (elim disjE) (auto simp: bit_simps dest: bit_imp_le_length)
qed


lemma sextet4: "(c AND mask 6) AND mask 6 = (c :: byte) AND mask 6"
  by (simp add: and.assoc)

lemma sextet2_last: "push_bit 4 (a AND mask 2) AND mask 6 = push_bit 4 ((a :: byte) AND mask 2)"
  using sextet2 [of a 0] by simp

lemma sextet3_last: "push_bit 2 (b AND mask 4) AND mask 6 = push_bit 2 ((b :: byte) AND mask 4)"
  using sextet3 [of b 0] by simp

lemma octet1_last: "push_bit 2 (drop_bit 2 a) OR drop_bit 4 (push_bit 4 (a AND mask 2)) = (a :: byte)"
  using octet1 [of a 0] by simp

lemma octet2_last:
  "push_bit 4 ((push_bit 4 (a AND mask 2) OR drop_bit 4 b) AND mask 4)
     OR drop_bit 2 (push_bit 2 (b AND mask 4)) = (b :: byte)"
  using octet2 [of a b 0] by simp

lemma a2b_loop_data:
  assumes "v AND mask 6 = v"
  shows "a2b_loop q l pd (table_b2a_base64 v # cs) =
     (if q = 0 then a2b_loop 1 v 0 cs
      else if q = 1 then emit (push_bit 2 l OR drop_bit 4 v) (a2b_loop 2 (v AND mask 4) 0 cs)
      else if q = 2 then emit (push_bit 4 l OR drop_bit 2 v) (a2b_loop 3 (v AND mask 2) 0 cs)
      else emit (push_bit 6 l OR v) (a2b_loop 0 0 0 cs))"
  using table_inverse [OF six_bits_bound [OF assms]] table_b2a_base64_not_pad [of v]
  by (simp add: mask_numerals)

lemma a2b_loop_pad2: "a2b_loop 2 l 0 ''=='' = Some []"
  by simp

lemma a2b_loop_pad3: "a2b_loop 3 l 0 ''='' = Some []"
  by simp

lemma b64encode_mask:
  "b64encode [a] =
     [table_b2a_base64 (drop_bit 2 a), table_b2a_base64 (push_bit 4 (a AND mask 2)),
      CHR ''='', CHR ''='']"
  "b64encode [a, b] =
     [table_b2a_base64 (drop_bit 2 a),
      table_b2a_base64 (push_bit 4 (a AND mask 2) OR drop_bit 4 b),
      table_b2a_base64 (push_bit 2 (b AND mask 4)),
      CHR ''='']"
  "b64encode (a # b # c # rest) =
     table_b2a_base64 (drop_bit 2 a) #
     table_b2a_base64 (push_bit 4 (a AND mask 2) OR drop_bit 4 b) #
     table_b2a_base64 (push_bit 2 (b AND mask 4) OR drop_bit 6 c) #
     table_b2a_base64 (c AND mask 6) # b64encode rest"
  by (simp_all add: mask_numerals)

lemma a2b_loop_data_steps:
  assumes "v AND mask 6 = v"
  shows "a2b_loop 0 l pd (table_b2a_base64 v # cs) = a2b_loop 1 v 0 cs"
    and "a2b_loop 1 l pd (table_b2a_base64 v # cs) =
           emit (push_bit 2 l OR drop_bit 4 v) (a2b_loop 2 (v AND mask 4) 0 cs)"
    and "a2b_loop 2 l pd (table_b2a_base64 v # cs) =
           emit (push_bit 4 l OR drop_bit 2 v) (a2b_loop 3 (v AND mask 2) 0 cs)"
    and "a2b_loop 3 l pd (table_b2a_base64 v # cs) =
           emit (push_bit 6 l OR v) (a2b_loop 0 0 0 cs)"
  by (simp_all add: a2b_loop_data [OF assms] del: a2b_loop.simps)

lemmas sextets = sextet1 sextet2 sextet3 sextet4 sextet2_last sextet3_last

lemmas octets = octet1 octet2 octet3 octet1_last octet2_last

lemma emit_Some: "emit b (Some bs) = Some (b # bs)"
  by (simp add: emit_def)

lemma a2b_b64encode: "a2b_loop 0 0 0 (b64encode bs) = Some bs"
proof (induction bs rule: b64encode.induct)
  case 1
  show ?case by simp
next
  case (2 a)
  show ?case
    unfolding b64encode_mask
    by (simp only: a2b_loop_data_steps sextets octets a2b_loop_pad2 emit_Some)
next
  case (3 a b)
  show ?case
    unfolding b64encode_mask
    by (simp only: a2b_loop_data_steps sextets octets a2b_loop_pad3 emit_Some)
next
  case (4 a b c rest)
  show ?case
    unfolding b64encode_mask
    by (simp only: a2b_loop_data_steps sextets octets emit_Some 4)
qed

lemma b64encode_ascii: "is_ascii (b64encode bs)"
  by (induction bs rule: b64encode.induct) (simp_all add: is_ascii_def table_b2a_base64_ascii)

lemma b64decode_b64encode: "b64decode (b64encode bs) = Inr bs"
  by (simp add: b64decode_def b64encode_ascii a2b_base64_def a2b_b64encode)

lemma marked_envelope_roundtrip: "decode_envelope (''[&'' @ b64encode bs @ '']'') = Inr bs"
  unfolding decode_envelope_payload by (simp add: b64decode_b64encode)

lemma marked_link_decodes_payload:
  "decode_build_link (''[&'' @ b64encode bs @ '']'') = decode_bytes bs"
  unfolding decode_build_link_def marked_envelope_roundtrip by simp

text \<open>
  What the encoder's base64 layer writes is valid base64 in the specification's sense.
\<close>

lemma sextet_in_alphabet: "v AND mask 6 = v \<Longrightarrow> in_alphabet (table_b2a_base64 v)"
  using table_inverse [OF six_bits_bound, of v] by (simp add: in_alphabet_def)

lemmas sextet_chars =
  sextet1 [THEN sextet_in_alphabet] sextet2 [THEN sextet_in_alphabet]
  sextet3 [THEN sextet_in_alphabet] sextet4 [THEN sextet_in_alphabet]
  sextet2_last [THEN sextet_in_alphabet] sextet3_last [THEN sextet_in_alphabet]

lemma b64encode_valid: "valid_base64 (b64encode bs)"
proof (induction bs rule: b64encode.induct)
  case 1
  show ?case by simp
next
  case (2 a)
  show ?case
    unfolding b64encode_mask by (simp only: valid_base64.simps sextet_chars simp_thms)
next
  case (3 a b)
  show ?case
    unfolding b64encode_mask by (simp only: valid_base64.simps sextet_chars simp_thms)
next
  case (4 a b c rest)
  show ?case
  proof (cases "b64encode rest")
    case Nil
    show ?thesis
      unfolding b64encode_mask Nil by (simp only: valid_base64.simps sextet_chars simp_thms)
  next
    case (Cons x xs)
    from 4 have "valid_base64 (x # xs)" by (simp only: Cons)
    then show ?thesis
      unfolding b64encode_mask Cons by (simp only: valid_base64.simps sextet_chars simp_thms)
  qed
qed

end
